theory Spec2Isabelle
  imports Main "HOL-Library.Sublist"
begin

section \<open>Values and texts\<close>

text \<open>
  Texts are byte strings: a JavaScript string is held as its UTF-8 encoding, so the
  ASCII of the sources is written as it stands and a character beyond ASCII is the
  bytes of its encoding. A JSON value keeps a number as the text of its literal: no
  path of the handlers reads the value of a number of a parsed reply.
\<close>

datatype json =
    JNull
  | JBool bool
  | JNum string
  | JStr string
  | JArr "json list"
  | JObj "(string \<times> json) list"

text \<open>
  \<^verbatim>\<open>v.k\<close> on a parsed value that is not \<^verbatim>\<open>null\<close>: an own property of an
  object (the last of several members of one name, as \<^verbatim>\<open>JSON.parse\<close> keeps it),
  \<^verbatim>\<open>undefined\<close> (here \<open>None\<close>) otherwise.
\<close>

definition field :: "string \<Rightarrow> json \<Rightarrow> json option" where
  "field k v = (case v of JObj kvs \<Rightarrow> map_of (rev kvs) k | _ \<Rightarrow> None)"

text \<open>
  \<^verbatim>\<open>xs.slice(start, end)\<close> on integers: a negative index counts from the end, and
  both are clamped to the array.
\<close>

definition rel_index :: "int \<Rightarrow> nat \<Rightarrow> nat" where
  "rel_index i len = (if i < 0 then nat (max (int len + i) 0) else nat (min i (int len)))"

definition slice :: "int \<Rightarrow> int \<Rightarrow> 'a list \<Rightarrow> 'a list" where
  "slice start end xs =
     (let k = rel_index start (length xs); final = rel_index end (length xs)
      in take (final - k) (drop k xs))"

subsection \<open>Cleaning a reply: \<^verbatim>\<open>content.replace(/```json|```/g, '').trim()\<close>\<close>

function strip_fences :: "string \<Rightarrow> string" where
  "strip_fences s =
     (if s = [] then []
      else if prefix ''```json'' s then strip_fences (drop 7 s)
      else if prefix ''```'' s then strip_fences (drop 3 s)
      else hd s # strip_fences (tl s))"
  by pat_completeness auto
termination
  by (relation "measure length") auto

declare strip_fences.simps [simp del]

text \<open>
  The white space and line terminators \<^verbatim>\<open>trim\<close> removes, as UTF-8: U+0009 to U+000D,
  U+0020, U+00A0, U+1680, U+2000 to U+200A, U+2028, U+2029, U+202F, U+205F, U+3000 and
  U+FEFF.
\<close>

definition whitespace :: "string list" where
  "whitespace =
     [[CHR 0x09], [CHR 0x0A], [CHR 0x0B], [CHR 0x0C], [CHR 0x0D], [CHR 0x20],
      [CHR 0xC2, CHR 0xA0], [CHR 0xE1, CHR 0x9A, CHR 0x80],
      [CHR 0xE2, CHR 0x80, CHR 0x80], [CHR 0xE2, CHR 0x80, CHR 0x81],
      [CHR 0xE2, CHR 0x80, CHR 0x82], [CHR 0xE2, CHR 0x80, CHR 0x83],
      [CHR 0xE2, CHR 0x80, CHR 0x84], [CHR 0xE2, CHR 0x80, CHR 0x85],
      [CHR 0xE2, CHR 0x80, CHR 0x86], [CHR 0xE2, CHR 0x80, CHR 0x87],
      [CHR 0xE2, CHR 0x80, CHR 0x88], [CHR 0xE2, CHR 0x80, CHR 0x89],
      [CHR 0xE2, CHR 0x80, CHR 0x8A], [CHR 0xE2, CHR 0x80, CHR 0xA8],
      [CHR 0xE2, CHR 0x80, CHR 0xA9], [CHR 0xE2, CHR 0x80, CHR 0xAF],
      [CHR 0xE2, CHR 0x81, CHR 0x9F], [CHR 0xE3, CHR 0x80, CHR 0x80],
      [CHR 0xEF, CHR 0xBB, CHR 0xBF]]"

definition ws_prefix_len :: "string \<Rightarrow> nat" where
  "ws_prefix_len s = (case find (\<lambda>w. prefix w s) whitespace of Some w \<Rightarrow> length w | None \<Rightarrow> 0)"

definition ws_suffix_len :: "string \<Rightarrow> nat" where
  "ws_suffix_len s = (case find (\<lambda>w. suffix w s) whitespace of Some w \<Rightarrow> length w | None \<Rightarrow> 0)"

function trim_start :: "string \<Rightarrow> string" where
  "trim_start s =
     (let k = ws_prefix_len s
      in if 0 < k \<and> k \<le> length s then trim_start (drop k s) else s)"
  by pat_completeness auto
termination
  by (relation "measure length") auto

declare trim_start.simps [simp del]

function trim_end :: "string \<Rightarrow> string" where
  "trim_end s =
     (let k = ws_suffix_len s
      in if 0 < k \<and> k \<le> length s then trim_end (take (length s - k) s) else s)"
  by pat_completeness auto
termination
  by (relation "measure length") auto

declare trim_end.simps [simp del]

definition trim :: "string \<Rightarrow> string" where
  "trim s = trim_end (trim_start s)"

definition cleanedContent :: "string \<Rightarrow> string" where
  "cleanedContent content = trim (strip_fences content)"

subsection \<open>\<^verbatim>\<open>JSON.parse\<close>\<close>

text \<open>
  The handlers hand a text to \<^verbatim>\<open>JSON.parse\<close>, which belongs to the language and not
  to the repository: the handlers below take it as the parameter \<open>parse\<close>, \<open>None\<close> when
  it throws, and the theorems about them hold for every such function. \<open>jsonParse\<close> is
  the JSON grammar written out, for running a handler on a concrete reply. The fuel
  bounds the depth of the descent and is taken from the length of the text.
\<close>

definition is_json_ws :: "char \<Rightarrow> bool" where
  "is_json_ws c = (c = CHR 0x20 \<or> c = CHR 0x09 \<or> c = CHR 0x0A \<or> c = CHR 0x0D)"

definition skip_ws :: "string \<Rightarrow> string" where
  "skip_ws s = dropWhile is_json_ws s"

definition is_digit :: "char \<Rightarrow> bool" where
  "is_digit c = (48 \<le> (of_char c :: nat) \<and> (of_char c :: nat) \<le> 57)"

definition hex_value :: "char \<Rightarrow> nat option" where
  "hex_value c =
     (let n = (of_char c :: nat)
      in if 48 \<le> n \<and> n \<le> 57 then Some (n - 48)
         else if 65 \<le> n \<and> n \<le> 70 then Some (n - 55)
         else if 97 \<le> n \<and> n \<le> 102 then Some (n - 87)
         else None)"

definition hex4 :: "string \<Rightarrow> nat option" where
  "hex4 s =
     (case map hex_value (take 4 s) of
        [Some a, Some b, Some c, Some d] \<Rightarrow> Some (((a * 16 + b) * 16 + c) * 16 + d)
      | _ \<Rightarrow> None)"

definition utf8 :: "nat \<Rightarrow> string" where
  "utf8 cp =
     (if cp < 0x80 then [char_of cp]
      else if cp < 0x800 then [char_of (0xC0 + cp div 64), char_of (0x80 + cp mod 64)]
      else if cp < 0x10000 then
        [char_of (0xE0 + cp div 4096), char_of (0x80 + cp div 64 mod 64),
         char_of (0x80 + cp mod 64)]
      else
        [char_of (0xF0 + cp div 262144), char_of (0x80 + cp div 4096 mod 64),
         char_of (0x80 + cp div 64 mod 64), char_of (0x80 + cp mod 64)])"

text \<open>
  An escape, read after its backslash: the bytes it stands for and the number of
  characters it takes. An escaped high surrogate followed by an escaped low surrogate
  is one code point.
\<close>

definition escape :: "string \<Rightarrow> (string \<times> nat) option" where
  "escape s =
     (case s of
        [] \<Rightarrow> None
      | e # rest \<Rightarrow>
          if e = CHR 0x22 \<or> e = CHR 0x5C \<or> e = CHR ''/'' then Some ([e], 1)
          else if e = CHR ''b'' then Some ([CHR 0x08], 1)
          else if e = CHR ''f'' then Some ([CHR 0x0C], 1)
          else if e = CHR ''n'' then Some ([CHR 0x0A], 1)
          else if e = CHR ''r'' then Some ([CHR 0x0D], 1)
          else if e = CHR ''t'' then Some ([CHR 0x09], 1)
          else if e = CHR ''u'' then
            (case hex4 rest of
               None \<Rightarrow> None
             | Some hi \<Rightarrow>
                 if 0xD800 \<le> hi \<and> hi < 0xDC00 \<and> prefix [CHR 0x5C, CHR ''u''] (drop 4 rest) then
                   (case hex4 (drop 6 rest) of
                      Some lo \<Rightarrow>
                        if 0xDC00 \<le> lo \<and> lo < 0xE000
                        then Some (utf8 (0x10000 + (hi - 0xD800) * 1024 + (lo - 0xDC00)), 11)
                        else Some (utf8 hi, 5)
                    | None \<Rightarrow> Some (utf8 hi, 5))
                 else Some (utf8 hi, 5))
          else None)"

text \<open>The characters of a string after its opening quote, up to the closing one.\<close>

function parse_chars :: "string \<Rightarrow> (string \<times> string) option" where
  "parse_chars s =
     (case s of
        [] \<Rightarrow> None
      | c # cs \<Rightarrow>
          if c = CHR 0x22 then Some ([], cs)
          else if c = CHR 0x5C then
            (case escape cs of
               None \<Rightarrow> None
             | Some (bytes, k) \<Rightarrow>
                 (case parse_chars (drop k cs) of
                    None \<Rightarrow> None
                  | Some (r, rest) \<Rightarrow> Some (bytes @ r, rest)))
          else if (of_char c :: nat) < 0x20 then None
          else
            (case parse_chars cs of
               None \<Rightarrow> None
             | Some (r, rest) \<Rightarrow> Some (c # r, rest)))"
  by pat_completeness auto
termination
  by (relation "measure length") auto

declare parse_chars.simps [simp del]

definition digits :: "string \<Rightarrow> string \<times> string" where
  "digits s = (takeWhile is_digit s, dropWhile is_digit s)"

definition parse_int_part :: "string \<Rightarrow> (string \<times> string) option" where
  "parse_int_part s =
     (case s of
        [] \<Rightarrow> None
      | c # cs \<Rightarrow>
          if c = CHR ''0'' then Some ([c], cs)
          else if is_digit c then (case digits cs of (ds, r) \<Rightarrow> Some (c # ds, r))
          else None)"

definition parse_frac :: "string \<Rightarrow> (string \<times> string) option" where
  "parse_frac s =
     (case s of
        [] \<Rightarrow> Some ([], s)
      | c # cs \<Rightarrow>
          if c = CHR ''.'' then
            (case digits cs of (ds, r) \<Rightarrow> if ds = [] then None else Some (c # ds, r))
          else Some ([], s))"

definition parse_exp :: "string \<Rightarrow> (string \<times> string) option" where
  "parse_exp s =
     (case s of
        [] \<Rightarrow> Some ([], s)
      | c # cs \<Rightarrow>
          if c = CHR ''e'' \<or> c = CHR ''E'' then
            (let sign = (if cs \<noteq> [] \<and> (hd cs = CHR ''+'' \<or> hd cs = CHR ''-'') then [hd cs] else [])
             in case digits (drop (length sign) cs) of
                  (ds, r) \<Rightarrow> if ds = [] then None else Some (c # sign @ ds, r))
          else Some ([], s))"

definition parse_number :: "string \<Rightarrow> (string \<times> string) option" where
  "parse_number s =
     (let minus = (if prefix ''-'' s then ''-'' else [])
      in case parse_int_part (drop (length minus) s) of
           None \<Rightarrow> None
         | Some (i, r1) \<Rightarrow>
             (case parse_frac r1 of
                None \<Rightarrow> None
              | Some (f, r2) \<Rightarrow>
                  (case parse_exp r2 of
                     None \<Rightarrow> None
                   | Some (e, r3) \<Rightarrow> Some (minus @ i @ f @ e, r3))))"

fun parse_value :: "nat \<Rightarrow> string \<Rightarrow> (json \<times> string) option"
  and parse_elements :: "nat \<Rightarrow> string \<Rightarrow> (json list \<times> string) option"
  and parse_members :: "nat \<Rightarrow> string \<Rightarrow> ((string \<times> json) list \<times> string) option"
where
  "parse_value 0 s = None"
| "parse_value (Suc n) s =
     (case skip_ws s of
        [] \<Rightarrow> None
      | c # cs \<Rightarrow>
          if c = CHR ''{'' then
            (if prefix ''}'' (skip_ws cs) then Some (JObj [], tl (skip_ws cs))
             else (case parse_members n cs of
                     None \<Rightarrow> None
                   | Some (kvs, r) \<Rightarrow> Some (JObj kvs, r)))
          else if c = CHR ''['' then
            (if prefix '']'' (skip_ws cs) then Some (JArr [], tl (skip_ws cs))
             else (case parse_elements n cs of
                     None \<Rightarrow> None
                   | Some (vs, r) \<Rightarrow> Some (JArr vs, r)))
          else if c = CHR 0x22 then
            (case parse_chars cs of
               None \<Rightarrow> None
             | Some (str, r) \<Rightarrow> Some (JStr str, r))
          else if prefix ''null'' (c # cs) then Some (JNull, drop 4 (c # cs))
          else if prefix ''true'' (c # cs) then Some (JBool True, drop 4 (c # cs))
          else if prefix ''false'' (c # cs) then Some (JBool False, drop 5 (c # cs))
          else
            (case parse_number (c # cs) of
               None \<Rightarrow> None
             | Some (lexeme, r) \<Rightarrow> Some (JNum lexeme, r)))"
| "parse_elements 0 s = None"
| "parse_elements (Suc n) s =
     (case parse_value n s of
        None \<Rightarrow> None
      | Some (v, r) \<Rightarrow>
          (case skip_ws r of
             [] \<Rightarrow> None
           | c # cs \<Rightarrow>
               if c = CHR '','' then
                 (case parse_elements n cs of
                    None \<Rightarrow> None
                  | Some (vs, r') \<Rightarrow> Some (v # vs, r'))
               else if c = CHR '']'' then Some ([v], cs)
               else None))"
| "parse_members 0 s = None"
| "parse_members (Suc n) s =
     (case skip_ws s of
        [] \<Rightarrow> None
      | q # s1 \<Rightarrow>
          if q \<noteq> CHR 0x22 then None
          else
            (case parse_chars s1 of
               None \<Rightarrow> None
             | Some (k, s2) \<Rightarrow>
                 if \<not> prefix '':'' (skip_ws s2) then None
                 else
                   (case parse_value n (tl (skip_ws s2)) of
                      None \<Rightarrow> None
                    | Some (v, r) \<Rightarrow>
                        (case skip_ws r of
                           [] \<Rightarrow> None
                         | c # cs \<Rightarrow>
                             if c = CHR '','' then
                               (case parse_members n cs of
                                  None \<Rightarrow> None
                                | Some (kvs, r') \<Rightarrow> Some ((k, v) # kvs, r'))
                             else if c = CHR ''}'' then Some ([(k, v)], cs)
                             else None))))"

definition jsonParse :: "string \<Rightarrow> json option" where
  "jsonParse s =
     (case parse_value (Suc (length s)) s of
        None \<Rightarrow> None
      | Some (v, r) \<Rightarrow> if skip_ws r = [] then Some v else None)"

section \<open>The Question Provider\<close>

subsection \<open>Questions and the hard-coded tables\<close>

record Question =
  question :: string
  options :: "string list"
  correctAnswer :: string

text \<open>A question as \<^verbatim>\<open>NextResponse.json\<close> writes it into a response body.\<close>

definition question_json :: "Question \<Rightarrow> json" where
  "question_json q =
     JObj [(''question'', JStr (question q)),
           (''options'', JArr (map JStr (options q))),
           (''correctAnswer'', JStr (correctAnswer q))]"

text \<open>
  The invariant of a question, on a value of a response body: its options are four
  distinct texts and its \<^verbatim>\<open>correctAnswer\<close> is equal to exactly one of them.
\<close>

definition is_text :: "json \<Rightarrow> bool" where
  "is_text v = (case v of JStr _ \<Rightarrow> True | _ \<Rightarrow> False)"

definition question_ok :: "json \<Rightarrow> bool" where
  "question_ok v =
     (case (field ''question'' v, field ''options'' v, field ''correctAnswer'' v) of
        (Some (JStr _), Some (JArr os), Some (JStr c)) \<Rightarrow>
          length os = 4 \<and> list_all is_text os \<and> distinct os \<and>
          length (filter (\<lambda>opt. opt = JStr c) os) = 1
      | _ \<Rightarrow> False)"

definition pi_sign :: string where
  "pi_sign = [CHR 0xCF, CHR 0x80]"

definition degree_sign :: string where
  "degree_sign = [CHR 0xC2, CHR 0xB0]"

text \<open>\<^verbatim>\<open>fallbackQuestions\<close> of route.ts and of the two-stage variant (the same five).\<close>

definition fallbackQuestions :: "Question list" where
  "fallbackQuestions =
    [\<lparr>question = ''What is the chemical symbol for gold?'',
      options = [''Au'', ''Ag'', ''Fe'', ''Cu''],
      correctAnswer = ''Au''\<rparr>,
     \<lparr>question = ''Which planet is known as the Red Planet?'',
      options = [''Mars'', ''Venus'', ''Jupiter'', ''Mercury''],
      correctAnswer = ''Mars''\<rparr>,
     \<lparr>question = ''What is the process by which plants make their own food using sunlight?'',
      options = [''Photosynthesis'', ''Respiration'', ''Transpiration'', ''Germination''],
      correctAnswer = ''Photosynthesis''\<rparr>,
     \<lparr>question = ''What is the largest organ in the human body?'',
      options = [''Skin'', ''Liver'', ''Heart'', ''Brain''],
      correctAnswer = ''Skin''\<rparr>,
     \<lparr>question = ''Which of these is NOT a state of matter?'',
      options = [''Energy'', ''Solid'', ''Liquid'', ''Gas''],
      correctAnswer = ''Energy''\<rparr>]"

text \<open>\<^verbatim>\<open>mockData\<close> of the variant with a table by subject.\<close>

definition mathematics :: "Question list" where
  "mathematics =
    [\<lparr>question = ''What is the value of '' @ pi_sign @ '' (pi) to two decimal places?'',
      options = [''3.14'', ''3.16'', ''3.12'', ''3.18''],
      correctAnswer = ''3.14''\<rparr>,
     \<lparr>question = ''Solve for x: 2x + 5 = 13'',
      options = [''x = 4'', ''x = 5'', ''x = 3'', ''x = 6''],
      correctAnswer = ''x = 4''\<rparr>,
     \<lparr>question = ''What is the area of a circle with radius 5 units?'',
      options = [''25'' @ pi_sign @ '' square units'', ''10'' @ pi_sign @ '' square units'', ''5'' @ pi_sign @ '' square units'', ''15'' @ pi_sign @ '' square units''],
      correctAnswer = ''25'' @ pi_sign @ '' square units''\<rparr>,
     \<lparr>question = ''What is the square root of 144?'',
      options = [''12'', ''14'', ''10'', ''16''],
      correctAnswer = ''12''\<rparr>,
     \<lparr>question = ''If a triangle has angles measuring 30'' @ degree_sign @ '', 60'' @ degree_sign @ '', and 90'' @ degree_sign @ '', what type of triangle is it?'',
      options = [''Right triangle'', ''Equilateral triangle'', ''Isosceles triangle'', ''Scalene triangle''],
      correctAnswer = ''Right triangle''\<rparr>]"

definition science :: "Question list" where
  "science =
    [\<lparr>question = ''What is the chemical symbol for gold?'',
      options = [''Au'', ''Ag'', ''Fe'', ''Cu''],
      correctAnswer = ''Au''\<rparr>,
     \<lparr>question = ''Which planet is known as the Red Planet?'',
      options = [''Mars'', ''Venus'', ''Jupiter'', ''Mercury''],
      correctAnswer = ''Mars''\<rparr>,
     \<lparr>question = ''What is the process by which plants make their own food using sunlight?'',
      options = [''Photosynthesis'', ''Respiration'', ''Transpiration'', ''Germination''],
      correctAnswer = ''Photosynthesis''\<rparr>,
     \<lparr>question = ''What is the largest organ in the human body?'',
      options = [''Skin'', ''Liver'', ''Heart'', ''Brain''],
      correctAnswer = ''Skin''\<rparr>,
     \<lparr>question = ''Which of these is NOT a state of matter?'',
      options = [''Energy'', ''Solid'', ''Liquid'', ''Gas''],
      correctAnswer = ''Energy''\<rparr>]"

definition history :: "Question list" where
  "history =
    [\<lparr>question = ''Who was the first President of the United States?'',
      options = [''George Washington'', ''Thomas Jefferson'', ''Abraham Lincoln'', ''John Adams''],
      correctAnswer = ''George Washington''\<rparr>,
     \<lparr>question = ''In which year did World War II end?'',
      options = [''1945'', ''1939'', ''1942'', ''1950''],
      correctAnswer = ''1945''\<rparr>,
     \<lparr>question = ''Which ancient civilization built the pyramids at Giza?'',
      options = [''Ancient Egyptians'', ''Ancient Greeks'', ''Romans'', ''Mayans''],
      correctAnswer = ''Ancient Egyptians''\<rparr>,
     \<lparr>question = ''Who wrote the Declaration of Independence?'',
      options = [''Thomas Jefferson'', ''George Washington'', ''Benjamin Franklin'', ''John Adams''],
      correctAnswer = ''Thomas Jefferson''\<rparr>,
     \<lparr>question = ''Which event marked the beginning of World War I?'',
      options = [''Assassination of Archduke Franz Ferdinand'', ''The invasion of Poland'', ''The sinking of the Lusitania'', ''The Treaty of Versailles''],
      correctAnswer = ''Assassination of Archduke Franz Ferdinand''\<rparr>]"

definition generalKnowledge :: "Question list" where
  "generalKnowledge =
    [\<lparr>question = ''Which is the largest ocean on Earth?'',
      options = [''Pacific Ocean'', ''Atlantic Ocean'', ''Indian Ocean'', ''Arctic Ocean''],
      correctAnswer = ''Pacific Ocean''\<rparr>,
     \<lparr>question = ''What is the capital of Japan?'',
      options = [''Tokyo'', ''Beijing'', ''Seoul'', ''Bangkok''],
      correctAnswer = ''Tokyo''\<rparr>,
     \<lparr>question = ''Who painted the Mona Lisa?'',
      options = [''Leonardo da Vinci'', ''Pablo Picasso'', ''Vincent van Gogh'', ''Michelangelo''],
      correctAnswer = ''Leonardo da Vinci''\<rparr>,
     \<lparr>question = ''Which planet is closest to the Sun?'',
      options = [''Mercury'', ''Venus'', ''Earth'', ''Mars''],
      correctAnswer = ''Mercury''\<rparr>,
     \<lparr>question = ''What is the tallest mountain in the world?'',
      options = [''Mount Everest'', ''K2'', ''Kangchenjunga'', ''Makalu''],
      correctAnswer = ''Mount Everest''\<rparr>]"

definition machineLearning :: "Question list" where
  "machineLearning =
    [\<lparr>question = ''What is the process of finding patterns in data called?'',
      options = [''Data Mining'', ''Data Cleaning'', ''Data Visualization'', ''Data Collection''],
      correctAnswer = ''Data Mining''\<rparr>,
     \<lparr>question = ''Which algorithm is used for classification problems?'',
      options = [''Decision Tree'', ''K-means'', ''Linear Regression'', ''Principal Component Analysis''],
      correctAnswer = ''Decision Tree''\<rparr>,
     \<lparr>question = ''What does CNN stand for in deep learning?'',
      options = [''Convolutional Neural Network'', ''Computational Neural Network'', ''Complex Neural Network'', ''Continuous Neural Network''],
      correctAnswer = ''Convolutional Neural Network''\<rparr>,
     \<lparr>question = ''Which of these is a supervised learning algorithm?'',
      options = [''Support Vector Machine'', ''K-means clustering'', ''Apriori algorithm'', ''Principal Component Analysis''],
      correctAnswer = ''Support Vector Machine''\<rparr>,
     \<lparr>question = ''What is the goal of the backpropagation algorithm?'',
      options = [''To update weights in a neural network'', ''To cluster data points'', ''To reduce dimensionality'', ''To generate new data samples''],
      correctAnswer = ''To update weights in a neural network''\<rparr>]"

definition mockData :: "(string \<times> Question list) list" where
  "mockData =
     [(''Mathematics'', mathematics), (''Science'', science), (''History'', history),
      (''General Knowledge'', generalKnowledge), (''Machine Learning'', machineLearning)]"

text \<open>
  \<^verbatim>\<open>mockData[subject]\<close> is a property read on an object literal: an own key gives
  its list; a name of \<^verbatim>\<open>Object.prototype\<close> gives the inherited function or object,
  which is truthy and has no \<^verbatim>\<open>slice\<close>; any other name gives \<^verbatim>\<open>undefined\<close>.
\<close>

datatype 'a property = Own 'a | Inherited | Undefined

definition object_prototype_keys :: "string list" where
  "object_prototype_keys =
     [''constructor'', ''__defineGetter__'', ''__defineSetter__'', ''hasOwnProperty'',
      ''__lookupGetter__'', ''__lookupSetter__'', ''isPrototypeOf'',
      ''propertyIsEnumerable'', ''toString'', ''valueOf'', ''__proto__'',
      ''toLocaleString'']"

definition mockData_get :: "string \<Rightarrow> Question list property" where
  "mockData_get k =
     (case map_of mockData k of
        Some qs \<Rightarrow> Own qs
      | None \<Rightarrow> if k \<in> set object_prototype_keys then Inherited else Undefined)"

subsection \<open>Requests, replies and responses\<close>

text \<open>
  A request is a body from which the fields cannot be read (\<^verbatim>\<open>request.json()\<close>
  throws on it, or gives \<^verbatim>\<open>null\<close>, whose destructuring throws), or a body with the
  fields of the endpoint at their declared types, each present or absent:
  \<^verbatim>\<open>{ subject: string, difficulty: string, numberOfQuestions?: integer }\<close>.
\<close>

record body =
  subject :: "string option"
  difficulty :: "string option"
  numberOfQuestions :: "int option"

datatype request = Unparseable | Body body

text \<open>
  What one call of an external service gives: it throws, or it returns a content, which
  may be \<^verbatim>\<open>null\<close> (\<open>None\<close>) or a text. The prompt only feeds the service, and each
  service is called at most once in a request, so its reply is an input of the handler.
\<close>

datatype reply = Throws | Content "string option"

datatype failure =
    ServiceError
  | NoContent
  | SyntaxError
  | TypeError
  | NoQuestions
  | FailedToParse

record response =
  status :: nat
  questions :: "json list option"
  source :: "string option"
  error :: "string option"

definition ok_response :: "json list \<Rightarrow> string option \<Rightarrow> response" where
  "ok_response qs src = \<lparr>status = 200, questions = Some qs, source = src, error = None\<rparr>"

definition bad_request :: response where
  "bad_request =
     \<lparr>status = 400, questions = None, source = None,
      error = Some ''Subject and difficulty are required''\<rparr>"

text \<open>\<^verbatim>\<open>!x\<close> on an optional text: absent or empty.\<close>

definition falsy :: "string option \<Rightarrow> bool" where
  "falsy x = (x = None \<or> x = Some [])"

subsection \<open>The generation stages\<close>

text \<open>
  \<^verbatim>\<open>const questions = parsedContent.questions || []\<close> followed by
  \<^verbatim>\<open>if (!Array.isArray(questions) || questions.length === 0) throw\<close>. Reading a
  property of \<^verbatim>\<open>null\<close> throws a TypeError. Any other value of the property than a
  non-empty array throws: a falsy one is replaced by the empty array, a truthy one that
  is no array fails the first test, an empty array the second.
\<close>

definition questions_of :: "json \<Rightarrow> failure + json list" where
  "questions_of parsedContent =
     (case parsedContent of
        JNull \<Rightarrow> Inl TypeError
      | _ \<Rightarrow>
          (case field ''questions'' parsedContent of
             Some (JArr (q # qs)) \<Rightarrow> Inr (q # qs)
           | _ \<Rightarrow> Inl NoQuestions))"

text \<open>
  The Gemini stage (the only stage of route.ts and of the variant with a table by
  subject, the second stage of the two-stage variant). Its inner \<^verbatim>\<open>catch\<close> turns
  every failure of parsing and checking into one error.
\<close>

definition gemini_stage :: "(string \<Rightarrow> json option) \<Rightarrow> reply \<Rightarrow> failure + json list" where
  "gemini_stage parse r =
     (case r of
        Throws \<Rightarrow> Inl ServiceError
      | Content c \<Rightarrow>
          if falsy c then Inl NoContent
          else
            (case parse (cleanedContent (the c)) of
               None \<Rightarrow> Inl FailedToParse
             | Some parsedContent \<Rightarrow>
                 (case questions_of parsedContent of
                    Inl _ \<Rightarrow> Inl FailedToParse
                  | Inr qs \<Rightarrow> Inr qs)))"

text \<open>The OpenAI stage of the two-stage variant: the content is parsed as it is.\<close>

definition openai_stage :: "(string \<Rightarrow> json option) \<Rightarrow> reply \<Rightarrow> failure + json list" where
  "openai_stage parse r =
     (case r of
        Throws \<Rightarrow> Inl ServiceError
      | Content c \<Rightarrow>
          if falsy c then Inl NoContent
          else
            (case parse (the c) of
               None \<Rightarrow> Inl SyntaxError
             | Some parsedContent \<Rightarrow> questions_of parsedContent))"

subsection \<open>The three variants of \<^verbatim>\<open>POST\<close>\<close>

definition count_of :: "body \<Rightarrow> int" where
  "count_of b = (case numberOfQuestions b of None \<Rightarrow> 10 | Some n \<Rightarrow> n)"

text \<open>route.ts: one stage, then the fixed list.\<close>

definition POST_route :: "(string \<Rightarrow> json option) \<Rightarrow> reply \<Rightarrow> request \<Rightarrow> response" where
  "POST_route parse gemini req =
     (case req of
        Unparseable \<Rightarrow>
          ok_response (map question_json (slice 0 5 fallbackQuestions)) (Some ''error-fallback'')
      | Body b \<Rightarrow>
          if falsy (subject b) \<or> falsy (difficulty b) then bad_request
          else
            (case gemini_stage parse gemini of
               Inr qs \<Rightarrow> ok_response qs None
             | Inl _ \<Rightarrow>
                 ok_response
                   (map question_json
                      (slice 0 (min (count_of b) (int (length fallbackQuestions))) fallbackQuestions))
                   (Some ''fallback'')))"

text \<open>The two-stage variant: OpenAI, then Gemini, then the fixed list.\<close>

definition POST_two_stage ::
  "(string \<Rightarrow> json option) \<Rightarrow> reply \<Rightarrow> reply \<Rightarrow> request \<Rightarrow> response" where
  "POST_two_stage parse openai gemini req =
     (case req of
        Unparseable \<Rightarrow>
          ok_response (map question_json (slice 0 5 fallbackQuestions)) (Some ''error-fallback'')
      | Body b \<Rightarrow>
          if falsy (subject b) \<or> falsy (difficulty b) then bad_request
          else
            (case openai_stage parse openai of
               Inr qs \<Rightarrow> ok_response qs (Some ''openai'')
             | Inl _ \<Rightarrow>
                 (case gemini_stage parse gemini of
                    Inr qs \<Rightarrow> ok_response qs (Some ''gemini'')
                  | Inl _ \<Rightarrow>
                      ok_response
                        (map question_json
                           (slice 0 (min (count_of b) (int (length fallbackQuestions)))
                              fallbackQuestions))
                        (Some ''fallback''))))"

text \<open>
  The variant with a table by subject. In its inner \<^verbatim>\<open>catch\<close>, a subject that names
  a property of \<^verbatim>\<open>Object.prototype\<close> makes \<^verbatim>\<open>questions.slice\<close> throw, which the
  outer \<^verbatim>\<open>catch\<close> answers.
\<close>

definition POST_mock :: "(string \<Rightarrow> json option) \<Rightarrow> reply \<Rightarrow> request \<Rightarrow> response" where
  "POST_mock parse gemini req =
     (case req of
        Unparseable \<Rightarrow>
          ok_response (map question_json (slice 0 5 generalKnowledge)) (Some ''fallback'')
      | Body b \<Rightarrow>
          if falsy (subject b) \<or> falsy (difficulty b) then bad_request
          else
            (case gemini_stage parse gemini of
               Inr qs \<Rightarrow> ok_response qs None
             | Inl _ \<Rightarrow>
                 (case mockData_get (the (subject b)) of
                    Own qs \<Rightarrow>
                      ok_response (map question_json (slice 0 (count_of b) qs)) (Some ''mock'')
                  | Undefined \<Rightarrow>
                      ok_response (map question_json (slice 0 (count_of b) generalKnowledge))
                        (Some ''mock'')
                  | Inherited \<Rightarrow>
                      ok_response (map question_json (slice 0 5 generalKnowledge))
                        (Some ''fallback''))))"

section \<open>The Quiz controller\<close>

text \<open>
  The state of the \<^verbatim>\<open>Quiz\<close> component: its \<^verbatim>\<open>useState\<close> cells, and \<open>timerOn\<close> for
  an interval that is set and not cleared (\<^verbatim>\<open>timerRef\<close>). The \<^verbatim>\<open>error\<close> cell is
  \<open>fetchError\<close> here.
\<close>

definition TIME_LIMIT :: nat where
  "TIME_LIMIT = 60"

record results =
  correctAnswers :: nat
  wrongAnswers :: nat
  secondsUsed :: nat

record quiz =
  loading :: bool
  fetchError :: "string option"
  quizQuestions :: "Question list"
  timePassed :: nat
  activeQuestion :: nat
  selectedAnswerIndex :: int
  quizFinished :: bool
  isCorrectAnswer :: bool
  tally :: results
  timerOn :: bool

text \<open>
  The state once the questions are fetched (a non-empty list, or the fetch ends in the
  error view): \<^verbatim>\<open>setQuizQuestions(data.questions)\<close>, \<^verbatim>\<open>setLoading(false)\<close>, and
  the effect that sets the timer up.
\<close>

definition loaded :: "Question list \<Rightarrow> quiz" where
  "loaded qs =
     \<lparr>loading = False, fetchError = None, quizQuestions = qs, timePassed = 0,
      activeQuestion = 0, selectedAnswerIndex = - 1, quizFinished = False,
      isCorrectAnswer = False,
      tally = \<lparr>correctAnswers = 0, wrongAnswers = 0, secondsUsed = 0\<rparr>,
      timerOn = True\<rparr>"

text \<open>The callback of the interval, in \<^verbatim>\<open>setupTimer\<close>.\<close>

definition tick :: "quiz \<Rightarrow> quiz" where
  "tick s =
     s\<lparr>timePassed := (if timePassed s > TIME_LIMIT then TIME_LIMIT else timePassed s + 1)\<rparr>"

text \<open>The guard of both effects.\<close>

definition idle :: "quiz \<Rightarrow> bool" where
  "idle s = (quizFinished s \<or> loading s \<or> fetchError s \<noteq> None \<or> quizQuestions s = [])"

text \<open>
  \<^verbatim>\<open>handleNextQuestion\<close>. When it finishes the quiz, the clean-up of the timer effect
  (which depends on \<^verbatim>\<open>quizFinished\<close>) clears the interval.
\<close>

definition handleNextQuestion :: "quiz \<Rightarrow> quiz" where
  "handleNextQuestion s =
     (let s1 = s\<lparr>selectedAnswerIndex := - 1\<rparr>
      in if activeQuestion s + 1 \<ge> length (quizQuestions s)
         then s1\<lparr>quizFinished := True, timerOn := False\<rparr>
         else s1\<lparr>activeQuestion := activeQuestion s + 1, timerOn := True, timePassed := 0\<rparr>)"

text \<open>The effect on \<^verbatim>\<open>timePassed\<close>.\<close>

definition timeLimitEffect :: "quiz \<Rightarrow> quiz" where
  "timeLimitEffect s =
     (if idle s then s
      else if timePassed s > TIME_LIMIT then
        (let s1 =
           (if selectedAnswerIndex s = - 1
            then s\<lparr>tally := (tally s)\<lparr>secondsUsed := secondsUsed (tally s) + TIME_LIMIT,
                                       wrongAnswers := wrongAnswers (tally s) + 1\<rparr>\<rparr>
            else s)
         in (handleNextQuestion s1)\<lparr>timePassed := 0\<rparr>)
      else s)"

text \<open>
  \<^verbatim>\<open>handleSelectAnswer\<close>. Reading the active question beyond the list would throw
  after the first two updates; an option index beyond the options reads \<^verbatim>\<open>undefined\<close>,
  which is not the correct answer.
\<close>

definition handleSelectAnswer :: "nat \<Rightarrow> quiz \<Rightarrow> quiz" where
  "handleSelectAnswer answerIndex s =
     (let s1 = s\<lparr>timerOn := False, selectedAnswerIndex := int answerIndex\<rparr>
      in if activeQuestion s \<ge> length (quizQuestions s) then s1
         else
           (let q = quizQuestions s ! activeQuestion s;
                selectedAnswer =
                  (if answerIndex < length (options q) then Some (options q ! answerIndex)
                   else None)
            in if Some (correctAnswer q) = selectedAnswer
               then s1\<lparr>tally := (tally s)\<lparr>secondsUsed := secondsUsed (tally s) + timePassed s,
                                           correctAnswers := correctAnswers (tally s) + 1\<rparr>,
                       isCorrectAnswer := True\<rparr>
               else s1\<lparr>tally := (tally s)\<lparr>secondsUsed := secondsUsed (tally s) + timePassed s,
                                           wrongAnswers := wrongAnswers (tally s) + 1\<rparr>,
                       isCorrectAnswer := False\<rparr>))"

text \<open>
  The events of a session: a tick of the interval (followed by the effect on
  \<^verbatim>\<open>timePassed\<close>, which React runs before any other event), a click on an option, a
  click on the button Next Question. The interval ticks while it is set; the question
  view, with its options and its button, is rendered only while the quiz runs, and the
  button only once an option is selected.
\<close>

datatype event = Tick | Select nat | Next

text \<open>
  Modelled from the spec: the component \<^verbatim>\<open>OptionList\<close> is not among the sources; the
  spec lets the user select exactly one option of a question, so a click on an option
  reaches \<^verbatim>\<open>handleSelectAnswer\<close> only while no option is selected.
\<close>

definition option_click_enabled :: "quiz \<Rightarrow> bool" where
  "option_click_enabled s = (selectedAnswerIndex s = - 1)"

definition enabled :: "event \<Rightarrow> quiz \<Rightarrow> bool" where
  "enabled e s =
     (case e of
        Tick \<Rightarrow> timerOn s
      | Select i \<Rightarrow> \<not> idle s \<and> option_click_enabled s
      | Next \<Rightarrow> \<not> idle s \<and> selectedAnswerIndex s \<noteq> - 1)"

definition step :: "event \<Rightarrow> quiz \<Rightarrow> quiz" where
  "step e s =
     (case e of
        Tick \<Rightarrow> timeLimitEffect (tick s)
      | Select i \<Rightarrow> handleSelectAnswer i s
      | Next \<Rightarrow> handleNextQuestion s)"

text \<open>A session: the events in order, \<open>None\<close> when one of them cannot occur.\<close>

fun run :: "event list \<Rightarrow> quiz \<Rightarrow> quiz option" where
  "run [] s = Some s"
| "run (e # es) s = (if enabled e s then run es (step e s) else None)"

section \<open>Sample inputs\<close>

text \<open>The request of the spec's example, with a choice of \<^verbatim>\<open>numberOfQuestions\<close>.\<close>

definition example_body :: "int option \<Rightarrow> body" where
  "example_body n =
     \<lparr>subject = Some ''History'', difficulty = Some ''Easy'', numberOfQuestions = n\<rparr>"



text \<open>A reply with one well-formed question, between code-fence markers.\<close>

definition fenced_reply :: string where
  "fenced_reply =
     ''```json {\"questions\":[{\"question\":\"q\",\"options\":[\"a\",\"b\",\"c\",\"d\"],\"correctAnswer\":\"a\"}]} ```''"

definition fenced_question :: json where
  "fenced_question =
     JObj [(''question'', JStr ''q''),
           (''options'', JArr [JStr ''a'', JStr ''b'', JStr ''c'', JStr ''d'']),
           (''correctAnswer'', JStr ''a'')]"

text \<open>
  A session on two questions: the first answered with its first option and left by the
  button, the second left to the timer.
\<close>

definition sample_questions :: "Question list" where
  "sample_questions = take 2 science"

definition sample_session :: "event list" where
  "sample_session = Select 0 # Next # replicate 61 Tick"

text \<open>The first question of that list shown for the whole of the time limit.\<close>

definition at_limit :: quiz where
  "at_limit = (loaded sample_questions)\<lparr>timePassed := TIME_LIMIT\<rparr>"

text \<open>
  The same question without fences; the same after a byte-order mark (U+FEFF); and a
  reply that breaks off in the middle of its JSON.
\<close>

definition bare_reply :: string where
  "bare_reply =
     ''{\"questions\":[{\"question\":\"q\",\"options\":[\"a\",\"b\",\"c\",\"d\"],\"correctAnswer\":\"a\"}]}''"

definition marked_reply :: string where
  "marked_reply = [CHR 0xEF, CHR 0xBB, CHR 0xBF] @ bare_reply"

definition broken_reply :: string where
  "broken_reply = ''{\"questions\": [''"

section \<open>The claims in the spec's words\<close>

text \<open>
  A parsed value has a non-empty \<^verbatim>\<open>questions\<close> array.
\<close>

definition has_questions :: "json \<Rightarrow> bool" where
  "has_questions v =
     (case v of
        JObj kvs \<Rightarrow>
          (case map_of (rev kvs) ''questions'' of
             Some (JArr vs) \<Rightarrow> vs \<noteq> []
           | _ \<Rightarrow> False)
      | _ \<Rightarrow> False)"

text \<open>
  The text without its fence markers: reading from the left, every \<^verbatim>\<open>```json\<close>, and
  otherwise every \<^verbatim>\<open>```\<close>, is left out. The counter tells how many characters of a
  marker are still to be left out.
\<close>

definition marker_length :: "string \<Rightarrow> nat" where
  "marker_length s =
     (if take 7 s = ''```json'' then 7 else if take 3 s = ''```'' then 3 else 0)"

fun leave_out :: "nat \<Rightarrow> string \<Rightarrow> string" where
  "leave_out k [] = []"
| "leave_out (Suc k) (c # cs) = leave_out k cs"
| "leave_out 0 (c # cs) =
     (if marker_length (c # cs) = 0 then c # leave_out 0 cs
      else leave_out (marker_length (c # cs) - 1) cs)"

definition without_fences :: "string \<Rightarrow> string" where
  "without_fences s = leave_out 0 s"

text \<open>
  The text without the white space around it: the text is split into its characters,
  those of a given list taken whole and any other byte alone, and the characters of the
  list are dropped from the front; the same from the back, on the reversed text.
\<close>

function split_chars :: "string list \<Rightarrow> string \<Rightarrow> string list" where
  "split_chars ws s =
     (if s = [] then []
      else
        (case find (\<lambda>w. w \<noteq> [] \<and> prefix w s) ws of
           Some w \<Rightarrow> w # split_chars ws (drop (length w) s)
         | None \<Rightarrow> [hd s] # split_chars ws (tl s)))"
  by pat_completeness auto
termination
  by (relation "measure (\<lambda>(ws, s). length s)") (auto simp: find_Some_iff)

declare split_chars.simps [simp del]

definition strip_front :: "string list \<Rightarrow> string \<Rightarrow> string" where
  "strip_front ws s = concat (dropWhile (\<lambda>c. c \<in> set ws) (split_chars ws s))"

definition trimmed :: "string \<Rightarrow> string" where
  "trimmed s = rev (strip_front (map rev whitespace) (rev (strip_front whitespace s)))"

text \<open>
  The rule as the claim states it (the markers stripped, the remainder parsed), and the
  rule with the remainder trimmed before it is parsed.
\<close>

definition fails_as_stated :: "(string \<Rightarrow> json option) \<Rightarrow> string \<Rightarrow> bool" where
  "fails_as_stated parse raw =
     (case parse (without_fences raw) of
        None \<Rightarrow> True
      | Some v \<Rightarrow> \<not> has_questions v)"

definition fails_once_trimmed :: "(string \<Rightarrow> json option) \<Rightarrow> string \<Rightarrow> bool" where
  "fails_once_trimmed parse raw =
     (case parse (trimmed (without_fences raw)) of
        None \<Rightarrow> True
      | Some v \<Rightarrow> \<not> has_questions v)"

text \<open>
  The subject or the difficulty is absent or empty in the body of a request. A body
  that cannot be read has neither.
\<close>

definition lacks_required_field :: "request \<Rightarrow> bool" where
  "lacks_required_field req =
     (case req of
        Unparseable \<Rightarrow> True
      | Body b \<Rightarrow>
          subject b = None \<or> subject b = Some [] \<or>
          difficulty b = None \<or> difficulty b = Some [])"

section \<open>The invariant of a session\<close>

text \<open>
  What holds between the events of a session on a non-empty list of questions: every
  question before the active one has been counted once, and so has the active one once
  an option is selected; each counted question has added at most the time limit; the
  counter is within the limit; a finished quiz has no timer.
\<close>

definition counted :: "quiz \<Rightarrow> nat" where
  "counted s =
     (if quizFinished s then length (quizQuestions s)
      else activeQuestion s + (if selectedAnswerIndex s = - 1 then 0 else 1))"

definition session_inv :: "quiz \<Rightarrow> bool" where
  "session_inv s =
     (\<not> loading s \<and> fetchError s = None \<and> quizQuestions s \<noteq> [] \<and>
      (quizFinished s \<or> activeQuestion s < length (quizQuestions s)) \<and>
      (quizFinished s \<longrightarrow> \<not> timerOn s) \<and>
      correctAnswers (tally s) + wrongAnswers (tally s) = counted s \<and>
      secondsUsed (tally s) \<le> counted s * TIME_LIMIT \<and>
      timePassed s \<le> TIME_LIMIT)"

section \<open>Properties\<close>

subsection \<open>Slices and the tables\<close>

lemma slice_0: "slice 0 e xs = take (rel_index e (length xs)) xs"
  by (simp add: slice_def rel_index_def)

lemma slice_0_length: "length (slice 0 e xs) = rel_index e (length xs)"
  by (simp add: slice_def rel_index_def)

lemma list_all_slice_0: "list_all P xs \<Longrightarrow> list_all P (slice 0 e xs)"
  unfolding slice_0 list_all_iff by (auto dest: in_set_takeD)

lemma length_fallbackQuestions: "length fallbackQuestions = 5"
  by (simp add: fallbackQuestions_def)


lemma mathematics_ok: "list_all question_ok (map question_json mathematics)"
  by (simp add: mathematics_def question_json_def question_ok_def field_def is_text_def
      pi_sign_def degree_sign_def)

lemma science_ok: "list_all question_ok (map question_json science)"
  by (simp add: science_def question_json_def question_ok_def field_def is_text_def)

lemma history_ok: "list_all question_ok (map question_json history)"
  by (simp add: history_def question_json_def question_ok_def field_def is_text_def)

lemma generalKnowledge_ok: "list_all question_ok (map question_json generalKnowledge)"
  by (simp add: generalKnowledge_def question_json_def question_ok_def field_def is_text_def)

lemma machineLearning_ok: "list_all question_ok (map question_json machineLearning)"
  by (simp add: machineLearning_def question_json_def question_ok_def field_def is_text_def)

lemma fallback_slice_empty:
  "(slice 0 (min n (int (length fallbackQuestions))) fallbackQuestions = []) =
   (n = 0 \<or> n \<le> - 5)"
proof -
  have "length (slice 0 (min n (int (length fallbackQuestions))) fallbackQuestions)
        = rel_index (min n 5) 5"
    by (simp add: slice_0_length length_fallbackQuestions)
  moreover have "(rel_index (min n 5) 5 = 0) = (n = 0 \<or> n \<le> - 5)"
    by (auto simp: rel_index_def)
  ultimately show ?thesis
    by (metis length_0_conv)
qed


subsection \<open>A stage that succeeds gives a non-empty array\<close>

lemma questions_of_nonempty: "questions_of v = Inr qs \<Longrightarrow> qs \<noteq> []"
  by (auto simp: questions_of_def split: json.splits option.splits list.splits)

lemma gemini_stage_nonempty: "gemini_stage parse r = Inr qs \<Longrightarrow> qs \<noteq> []"
  by (auto simp: gemini_stage_def
      split: reply.splits option.splits sum.splits if_splits dest: questions_of_nonempty)

lemma openai_stage_nonempty: "openai_stage parse r = Inr qs \<Longrightarrow> qs \<noteq> []"
  by (auto simp: openai_stage_def
      split: reply.splits option.splits sum.splits if_splits dest: questions_of_nonempty)

subsection \<open>The path taken when every stage fails\<close>



lemma POST_mock_fallback:
  assumes "\<not> falsy (subject b)" and "\<not> falsy (difficulty b)"
    and "isl (gemini_stage parse gemini)"
  shows "POST_mock parse gemini (Body b) =
         (case mockData_get (the (subject b)) of
            Own qs \<Rightarrow> ok_response (map question_json (slice 0 (count_of b) qs)) (Some ''mock'')
          | Undefined \<Rightarrow>
              ok_response (map question_json (slice 0 (count_of b) generalKnowledge)) (Some ''mock'')
          | Inherited \<Rightarrow>
              ok_response (map question_json (slice 0 5 generalKnowledge)) (Some ''fallback''))"
  using assms
  by (cases "gemini_stage parse gemini") (simp_all add: POST_mock_def split: property.splits)

lemma mockData_tables:
  assumes "map_of mockData k = Some qs"
  shows "length qs = 5 \<and> list_all question_ok (map question_json qs)"
proof -
  from assms have "qs = mathematics \<or> qs = science \<or> qs = history \<or> qs = generalKnowledge
      \<or> qs = machineLearning"
    by (auto simp: mockData_def split: if_splits)
  moreover have "length mathematics = 5" "length science = 5" "length history = 5"
    "length generalKnowledge = 5" "length machineLearning = 5"
    by (simp_all add: mathematics_def science_def history_def generalKnowledge_def
        machineLearning_def)
  ultimately show ?thesis
    using mathematics_ok science_ok history_ok generalKnowledge_ok machineLearning_ok
    by auto
qed

lemma mockData_get_Own: "(mockData_get k = Own qs) = (map_of mockData k = Some qs)"
  by (auto simp: mockData_get_def split: option.splits)

lemma slice_count_length: "1 \<le> n \<Longrightarrow> length xs = 5 \<Longrightarrow> length (slice 0 n xs) = nat (min n 5)"
  by (simp add: slice_0_length rel_index_def)

lemma gemini_stage_throws: "gemini_stage parse Throws = Inl ServiceError"
  by (simp add: gemini_stage_def)

lemma openai_stage_throws: "openai_stage parse Throws = Inl ServiceError"
  by (simp add: openai_stage_def)



subsection \<open>The status of a response\<close>

text \<open>
  When the array of a response is empty: every stage has failed and the fixed list is
  cut to nothing.
\<close>

lemma POST_questions_empty_iff:
  assumes "\<not> falsy (subject b)" and "\<not> falsy (difficulty b)"
  shows "(\<exists>qs. status (POST_route parse gemini (Body b)) = 200 \<and>
              error (POST_route parse gemini (Body b)) = None \<and>
              questions (POST_route parse gemini (Body b)) = Some qs \<and>
              ((qs = []) =
               (isl (gemini_stage parse gemini) \<and> (count_of b = 0 \<or> count_of b \<le> - 5)))) \<and>
         (\<exists>qs. status (POST_two_stage parse openai gemini (Body b)) = 200 \<and>
              error (POST_two_stage parse openai gemini (Body b)) = None \<and>
              questions (POST_two_stage parse openai gemini (Body b)) = Some qs \<and>
              ((qs = []) =
               (isl (openai_stage parse openai) \<and> isl (gemini_stage parse gemini) \<and>
                (count_of b = 0 \<or> count_of b \<le> - 5))))"
proof (intro conjI)
  show "\<exists>qs. status (POST_route parse gemini (Body b)) = 200 \<and>
              error (POST_route parse gemini (Body b)) = None \<and>
              questions (POST_route parse gemini (Body b)) = Some qs \<and>
              ((qs = []) =
               (isl (gemini_stage parse gemini) \<and> (count_of b = 0 \<or> count_of b \<le> - 5)))"
  proof (cases "gemini_stage parse gemini")
    case (Inl e)
    with assms show ?thesis
      by (simp add: POST_route_def ok_response_def fallback_slice_empty)
  next
    case (Inr qs)
    with assms gemini_stage_nonempty [OF Inr] show ?thesis
      by (simp add: POST_route_def ok_response_def)
  qed
next
  show "\<exists>qs. status (POST_two_stage parse openai gemini (Body b)) = 200 \<and>
              error (POST_two_stage parse openai gemini (Body b)) = None \<and>
              questions (POST_two_stage parse openai gemini (Body b)) = Some qs \<and>
              ((qs = []) =
               (isl (openai_stage parse openai) \<and> isl (gemini_stage parse gemini) \<and>
                (count_of b = 0 \<or> count_of b \<le> - 5)))"
  proof (cases "openai_stage parse openai")
    case (Inr qs)
    with assms openai_stage_nonempty [OF Inr] show ?thesis
      by (simp add: POST_two_stage_def ok_response_def)
  next
    case o: (Inl e)
    show ?thesis
    proof (cases "gemini_stage parse gemini")
      case (Inl e')
      with o assms show ?thesis
        by (simp add: POST_two_stage_def ok_response_def fallback_slice_empty)
    next
      case (Inr qs)
      with o assms gemini_stage_nonempty [OF Inr] show ?thesis
        by (simp add: POST_two_stage_def ok_response_def)
    qed
  qed
qed

lemma POST_mock_questions:
  assumes "\<not> falsy (subject b)" and "\<not> falsy (difficulty b)" and "1 \<le> count_of b"
  shows "\<exists>qs. status (POST_mock parse gemini (Body b)) = 200 \<and>
              error (POST_mock parse gemini (Body b)) = None \<and>
              questions (POST_mock parse gemini (Body b)) = Some qs \<and> qs \<noteq> []"
proof (cases "gemini_stage parse gemini")
  case (Inr qs)
  with assms gemini_stage_nonempty [OF Inr] show ?thesis
    by (simp add: POST_mock_def ok_response_def)
next
  case (Inl e)
  then have g: "isl (gemini_stage parse gemini)"
    by simp
  have cut: "slice 0 (count_of b) qs \<noteq> []" if "length qs = 5" for qs
    using slice_count_length [OF assms(3) that] assms(3) by auto
  have gk: "length generalKnowledge = 5"
    by (simp add: generalKnowledge_def)
  show ?thesis
  proof (cases "mockData_get (the (subject b))")
    case (Own qs)
    then have "length qs = 5"
      using mockData_tables by (simp add: mockData_get_Own)
    with Own cut show ?thesis
      by (simp add: POST_mock_fallback [OF assms(1,2) g] ok_response_def)
  next
    case Inherited
    with gk show ?thesis
      by (auto simp: POST_mock_fallback [OF assms(1,2) g] ok_response_def slice_0 rel_index_def)
  next
    case Undefined
    with cut [OF gk] show ?thesis
      by (simp add: POST_mock_fallback [OF assms(1,2) g] ok_response_def)
  qed
qed

text \<open>
  C1. For a body with a non-empty subject and a non-empty difficulty, and a count as the
  Provider's contract has it (absent, which is 10, or at least 1), each variant answers
  with status 200, no error field and a non-empty questions array, whatever the stages
  do: no failure of a stage reaches the caller.
\<close>

theorem POST_success_status:
  assumes "\<not> falsy (subject b)" and "\<not> falsy (difficulty b)" and "1 \<le> count_of b"
  shows "(\<exists>qs. status (POST_route parse gemini (Body b)) = 200 \<and>
              error (POST_route parse gemini (Body b)) = None \<and>
              questions (POST_route parse gemini (Body b)) = Some qs \<and> qs \<noteq> []) \<and>
         (\<exists>qs. status (POST_two_stage parse openai gemini (Body b)) = 200 \<and>
              error (POST_two_stage parse openai gemini (Body b)) = None \<and>
              questions (POST_two_stage parse openai gemini (Body b)) = Some qs \<and>
              qs \<noteq> []) \<and>
         (\<exists>qs. status (POST_mock parse gemini (Body b)) = 200 \<and>
              error (POST_mock parse gemini (Body b)) = None \<and>
              questions (POST_mock parse gemini (Body b)) = Some qs \<and> qs \<noteq> [])"
proof -
  from assms(3) have c: "\<not> (count_of b = 0 \<or> count_of b \<le> - 5)"
    by simp
  from POST_questions_empty_iff [OF assms(1,2), of parse gemini openai] c
    POST_mock_questions [OF assms, of parse gemini]
  show ?thesis
    by auto
qed

text \<open>
  The theorem at the spec's example, every service throwing: three questions asked, and
  the count left out.
\<close>

theorem POST_success_status_witness:
  "(\<exists>qs. status (POST_route jsonParse Throws (Body (example_body (Some 3)))) = 200 \<and>
        error (POST_route jsonParse Throws (Body (example_body (Some 3)))) = None \<and>
        questions (POST_route jsonParse Throws (Body (example_body (Some 3)))) = Some qs \<and>
        qs \<noteq> []) \<and>
   (\<exists>qs. status (POST_two_stage jsonParse Throws Throws (Body (example_body None))) = 200 \<and>
        error (POST_two_stage jsonParse Throws Throws (Body (example_body None))) = None \<and>
        questions (POST_two_stage jsonParse Throws Throws (Body (example_body None))) =
          Some qs \<and>
        qs \<noteq> []) \<and>
   (\<exists>qs. status (POST_mock jsonParse Throws (Body (example_body (Some 3)))) = 200 \<and>
        error (POST_mock jsonParse Throws (Body (example_body (Some 3)))) = None \<and>
        questions (POST_mock jsonParse Throws (Body (example_body (Some 3)))) = Some qs \<and>
        qs \<noteq> [])"
  using POST_success_status [of "example_body (Some 3)" jsonParse Throws Throws]
    POST_success_status [of "example_body None" jsonParse Throws Throws]
  by (simp add: example_body_def falsy_def count_of_def)


subsection \<open>The structural error\<close>

text \<open>
  C4, as the code has it. For a body whose fields can be read, each variant answers with
  status 400 exactly when the subject or the difficulty is absent or empty, and exactly
  then the response has an error field and no questions field; the count of a body
  without \<^verbatim>\<open>numberOfQuestions\<close> is 10, and such a body is answered as one that asks
  for 10.
\<close>

theorem POST_bad_request_iff:
  "(status (POST_route parse gemini (Body b)) = 400) = lacks_required_field (Body b) \<and>
   (error (POST_route parse gemini (Body b)) \<noteq> None \<and>
    questions (POST_route parse gemini (Body b)) = None) = lacks_required_field (Body b) \<and>
   (status (POST_two_stage parse openai gemini (Body b)) = 400) =
     lacks_required_field (Body b) \<and>
   (error (POST_two_stage parse openai gemini (Body b)) \<noteq> None \<and>
    questions (POST_two_stage parse openai gemini (Body b)) = None) =
     lacks_required_field (Body b) \<and>
   (status (POST_mock parse gemini (Body b)) = 400) = lacks_required_field (Body b) \<and>
   (error (POST_mock parse gemini (Body b)) \<noteq> None \<and>
    questions (POST_mock parse gemini (Body b)) = None) = lacks_required_field (Body b) \<and>
   count_of (b\<lparr>numberOfQuestions := None\<rparr>) = 10 \<and>
   count_of (b\<lparr>numberOfQuestions := Some n\<rparr>) = n \<and>
   POST_route parse gemini (Body (b\<lparr>numberOfQuestions := None\<rparr>)) =
     POST_route parse gemini (Body (b\<lparr>numberOfQuestions := Some 10\<rparr>)) \<and>
   POST_two_stage parse openai gemini (Body (b\<lparr>numberOfQuestions := None\<rparr>)) =
     POST_two_stage parse openai gemini (Body (b\<lparr>numberOfQuestions := Some 10\<rparr>)) \<and>
   POST_mock parse gemini (Body (b\<lparr>numberOfQuestions := None\<rparr>)) =
     POST_mock parse gemini (Body (b\<lparr>numberOfQuestions := Some 10\<rparr>))"
proof -
  have route: "POST_route parse gemini (Body b) = bad_request" if "falsy (subject b) \<or> falsy (difficulty b)"
    using that by (simp add: POST_route_def)
  have route': "status (POST_route parse gemini (Body b)) = 200 \<and> error (POST_route parse gemini (Body b)) = None"
    if "\<not> (falsy (subject b) \<or> falsy (difficulty b))"
    using that by (simp add: POST_route_def ok_response_def split: sum.splits)
  have two: "POST_two_stage parse openai gemini (Body b) = bad_request" if "falsy (subject b) \<or> falsy (difficulty b)"
    using that by (simp add: POST_two_stage_def)
  have two': "status (POST_two_stage parse openai gemini (Body b)) = 200 \<and> error (POST_two_stage parse openai gemini (Body b)) = None"
    if "\<not> (falsy (subject b) \<or> falsy (difficulty b))"
    using that by (simp add: POST_two_stage_def ok_response_def split: sum.splits)
  have mock: "POST_mock parse gemini (Body b) = bad_request" if "falsy (subject b) \<or> falsy (difficulty b)"
    using that by (simp add: POST_mock_def)
  have mock': "status (POST_mock parse gemini (Body b)) = 200 \<and> error (POST_mock parse gemini (Body b)) = None"
    if "\<not> (falsy (subject b) \<or> falsy (difficulty b))"
    using that by (simp add: POST_mock_def ok_response_def split: sum.splits property.splits)
  have f: "lacks_required_field (Body b) = (falsy (subject b) \<or> falsy (difficulty b))"
    by (auto simp: falsy_def lacks_required_field_def)
  have c: "count_of (b\<lparr>numberOfQuestions := None\<rparr>) = 10"
    "count_of (b\<lparr>numberOfQuestions := Some n\<rparr>) = n"
    by (simp_all add: count_of_def)
  have dflt: "POST_route parse gemini (Body (b\<lparr>numberOfQuestions := None\<rparr>)) =
     POST_route parse gemini (Body (b\<lparr>numberOfQuestions := Some 10\<rparr>))"
     "POST_two_stage parse openai gemini (Body (b\<lparr>numberOfQuestions := None\<rparr>)) =
     POST_two_stage parse openai gemini (Body (b\<lparr>numberOfQuestions := Some 10\<rparr>))"
     "POST_mock parse gemini (Body (b\<lparr>numberOfQuestions := None\<rparr>)) =
     POST_mock parse gemini (Body (b\<lparr>numberOfQuestions := Some 10\<rparr>))"
    by (simp_all add: POST_route_def POST_two_stage_def POST_mock_def count_of_def
        split: sum.splits property.splits)
  show ?thesis
    unfolding f
    apply (cases "falsy (subject b) \<or> falsy (difficulty b)")
    subgoal using route two mock dflt c by (simp add: bad_request_def)
    subgoal using route' two' mock' dflt c by simp
    done
qed

text \<open>
  C4 as it is stated fails: a body that cannot be read has no subject and no difficulty,
  and is answered with status 200, the fixed questions and no error field.
\<close>

theorem POST_unreadable_body_not_refused:
  "lacks_required_field Unparseable \<and>
   status (POST_route jsonParse Throws Unparseable) = 200 \<and>
   status (POST_route jsonParse Throws Unparseable) \<noteq> 400 \<and>
   error (POST_route jsonParse Throws Unparseable) = None \<and>
   questions (POST_route jsonParse Throws Unparseable) \<noteq> None"
  by (simp add: lacks_required_field_def POST_route_def ok_response_def)

subsection \<open>What a response holds\<close>




subsection \<open>The table used when every stage fails\<close>




subsection \<open>Stripping and trimming\<close>

lemma leave_out_drop: "leave_out k s = leave_out 0 (drop k s)"
proof (induction s arbitrary: k)
  case Nil
  then show ?case by simp
next
  case (Cons c cs)
  show ?case
  proof (cases k)
    case 0
    then show ?thesis by simp
  next
    case (Suc k')
    with Cons.IH [of k'] show ?thesis by simp
  qed
qed

lemma prefix_take: "n = length w \<Longrightarrow> prefix w s = (take n s = w)"
  by (metis append_eq_conv_conj prefix_def take_is_prefix)

lemma marker_length_cases:
  "marker_length s =
     (if prefix ''```json'' s then 7 else if prefix ''```'' s then 3 else 0)"
  by (simp add: marker_length_def prefix_take [of 7] prefix_take [of 3])

lemma cleanedContent_Nil: "cleanedContent [] = []"
  by (simp add: cleanedContent_def trim_def ws_prefix_len_def ws_suffix_len_def whitespace_def
      strip_fences.simps [of "[]"] trim_start.simps [of "[]"] trim_end.simps [of "[]"])

lemma concat_split_chars: "concat (split_chars ws s) = s"
proof (induction ws s rule: split_chars.induct)
  case (1 ws s)
  show ?case
  proof (cases "s = []")
    case True
    then show ?thesis by (subst split_chars.simps) simp
  next
    case False
    show ?thesis
    proof (cases "find (\<lambda>w. w \<noteq> [] \<and> prefix w s) ws")
      case None
      with False have "concat (split_chars ws (tl s)) = tl s"
        by (rule "1.IH"(1))
      with False None show ?thesis
        by (subst split_chars.simps) simp
    next
      case (Some w)
      then have "prefix w s"
        by (auto simp: find_Some_iff)
      then have "w @ drop (length w) s = s"
        by (metis append_eq_conv_conj prefix_def)
      moreover have "concat (split_chars ws (drop (length w) s)) = drop (length w) s"
        using False Some by (rule "1.IH"(2))
      ultimately show ?thesis
        using False Some by (subst split_chars.simps) simp
    qed
  qed
qed

lemma strip_front_step:
  assumes "[] \<notin> set ws"
  shows "strip_front ws s =
         (case find (\<lambda>w. prefix w s) ws of
            Some w \<Rightarrow> strip_front ws (drop (length w) s)
          | None \<Rightarrow> s)"
proof -
  have same: "find (\<lambda>w. w \<noteq> [] \<and> prefix w s) ws = find (\<lambda>w. prefix w s) ws"
    using assms by (intro find_cong) auto
  show ?thesis
  proof (cases "find (\<lambda>w. prefix w s) ws")
    case None
    show ?thesis
    proof (cases "s = []")
      case True
      with None show ?thesis
        by (subst strip_front_def, subst split_chars.simps) simp
    next
      case False
      have "[hd s] \<notin> set ws"
      proof
        assume "[hd s] \<in> set ws"
        moreover have "prefix [hd s] s"
          using False by (cases s) simp_all
        ultimately show False
          using None by (auto simp: find_None_iff)
      qed
      moreover have "hd s # concat (split_chars ws (tl s)) = s"
        using False by (simp add: concat_split_chars)
      ultimately show ?thesis
        using None False same
        by (subst strip_front_def, subst split_chars.simps) simp
    qed
  next
    case (Some w)
    then have w: "w \<in> set ws" "prefix w s"
      by (auto simp: find_Some_iff)
    with assms have "s \<noteq> []"
      by auto
    with Some same w show ?thesis
      by (subst strip_front_def, subst split_chars.simps) (simp add: strip_front_def)
  qed
qed

lemma whitespace_nonempty: "[] \<notin> set whitespace"
  by (simp add: whitespace_def)

lemma find_map_rev:
  "find (\<lambda>w. prefix w (rev s)) (map rev ws) = map_option rev (find (\<lambda>w. suffix w s) ws)"
  by (induction ws) (simp_all add: suffix_to_prefix)

lemma rev_whitespace_nonempty: "[] \<notin> set (map rev whitespace)"
  using whitespace_nonempty by auto

subsection \<open>When a stage fails\<close>

lemma questions_of_has_questions: "isl (questions_of v) = (\<not> has_questions v)"
  by (auto simp: questions_of_def has_questions_def field_def
      split: json.splits option.splits list.splits)

lemma jsonParse_Nil: "jsonParse [] = None"
  by code_simp

lemma POST_route_failed_stage:
  "isl (gemini_stage parse r) \<Longrightarrow> POST_route parse r req = POST_route parse Throws req"
  by (cases "gemini_stage parse r")
    (simp_all add: POST_route_def gemini_stage_throws split: request.splits)

lemma POST_mock_failed_stage:
  "isl (gemini_stage parse r) \<Longrightarrow> POST_mock parse r req = POST_mock parse Throws req"
  by (cases "gemini_stage parse r")
    (simp_all add: POST_mock_def gemini_stage_throws split: request.splits)

lemma POST_two_stage_failed_second:
  "isl (gemini_stage parse r) \<Longrightarrow>
   POST_two_stage parse openai r req = POST_two_stage parse openai Throws req"
  by (cases "gemini_stage parse r")
    (simp_all add: POST_two_stage_def gemini_stage_throws split: request.splits sum.splits)

lemma POST_two_stage_failed_first:
  "isl (openai_stage parse r) \<Longrightarrow>
   POST_two_stage parse r gemini req = POST_two_stage parse Throws gemini req"
  by (cases "openai_stage parse r")
    (simp_all add: POST_two_stage_def openai_stage_throws split: request.splits)

lemma broken_reply_fails:
  "fails_once_trimmed jsonParse broken_reply" "jsonParse broken_reply = None"
  by code_simp+

lemma fenced_reply_trimmed:
  "trimmed (without_fences fenced_reply) = bare_reply"
  "\<not> fails_once_trimmed jsonParse fenced_reply"
  by code_simp+

text \<open>
  C5, as the code has it. Every Gemini stage (the one stage of route.ts and of the
  variant with a table by subject, the second stage of the two-stage variant) strips the
  fence markers from the text of the reply, trims the white space around the remainder,
  parses it, and has failed exactly when parsing throws or the parsed value lacks a
  non-empty \<^verbatim>\<open>questions\<close> array. The OpenAI stage parses the text as it is, fences
  included, and has failed exactly when that throws or the parsed value lacks such an
  array. In each case a reply that fails is answered as a service that throws.
  \<^verbatim>\<open>JSON.parse\<close> throws on the empty text, which is what the parameter is assumed to
  do.
\<close>

theorem stage_failure_rule:
  assumes "parse [] = None"
  shows "isl (gemini_stage parse (Content (Some raw))) = fails_once_trimmed parse raw \<and>
         isl (openai_stage parse (Content (Some raw))) =
           (case parse raw of None \<Rightarrow> True | Some v \<Rightarrow> \<not> has_questions v) \<and>
         (fails_once_trimmed parse raw \<longrightarrow>
            POST_route parse (Content (Some raw)) req = POST_route parse Throws req \<and>
            POST_mock parse (Content (Some raw)) req = POST_mock parse Throws req \<and>
            POST_two_stage parse openai (Content (Some raw)) req =
              POST_two_stage parse openai Throws req) \<and>
         ((case parse raw of None \<Rightarrow> True | Some v \<Rightarrow> \<not> has_questions v) \<longrightarrow>
            POST_two_stage parse (Content (Some raw)) gemini req =
              POST_two_stage parse Throws gemini req)"
proof -
  have strip: "strip_fences s = without_fences s" for s
    unfolding without_fences_def
  proof (induction s rule: strip_fences.induct)
    case (1 s)
    show ?case
    proof (cases s)
      case Nil
      then show ?thesis by (simp add: strip_fences.simps [of "[]"])
    next
      case (Cons c cs)
      then have ne: "s \<noteq> []"
        by simp
      consider (json) "prefix ''```json'' s"
        | (plain) "\<not> prefix ''```json'' s" "prefix ''```'' s"
        | (none) "\<not> prefix ''```json'' s" "\<not> prefix ''```'' s"
        by blast
      then show ?thesis
      proof cases
        case json
        then have m: "marker_length s = 7"
          by (simp add: marker_length_cases)
        have "strip_fences s = strip_fences (drop 7 s)"
          using json ne by (subst strip_fences.simps) simp
        also have "\<dots> = leave_out 0 (drop 7 s)"
          by (rule "1.IH"(1) [OF ne json])
        also have "\<dots> = leave_out 6 cs"
          using Cons by (simp add: leave_out_drop [of 6 cs])
        also have "\<dots> = leave_out 0 s"
          using m unfolding Cons by simp
        finally show ?thesis .
      next
        case plain
        then have m: "marker_length s = 3"
          by (simp add: marker_length_cases)
        have "strip_fences s = strip_fences (drop 3 s)"
          using plain ne by (subst strip_fences.simps) simp
        also have "\<dots> = leave_out 0 (drop 3 s)"
          by (rule "1.IH"(2) [OF ne plain])
        also have "\<dots> = leave_out 2 cs"
          using Cons by (simp add: leave_out_drop [of 2 cs])
        also have "\<dots> = leave_out 0 s"
          using m unfolding Cons by simp
        finally show ?thesis .
      next
        case none
        then have m: "marker_length s = 0"
          by (simp add: marker_length_cases)
        have "strip_fences s = hd s # strip_fences (tl s)"
          using none ne by (subst strip_fences.simps) simp
        also have "\<dots> = hd s # leave_out 0 (tl s)"
          by (simp add: "1.IH"(3) [OF ne none])
        also have "\<dots> = leave_out 0 s"
          using m unfolding Cons by simp
        finally show ?thesis .
      qed
    qed
  qed
  have front: "trim_start s = strip_front whitespace s" for s
  proof (induction s rule: trim_start.induct)
    case (1 s)
    show ?case
    proof (cases "find (\<lambda>w. prefix w s) whitespace")
      case None
      then have "ws_prefix_len s = 0"
        by (simp add: ws_prefix_len_def)
      then have "trim_start s = s"
        by (subst trim_start.simps) simp
      with None show ?thesis
        by (simp add: strip_front_step [OF whitespace_nonempty])
    next
      case (Some w)
      then have w: "w \<in> set whitespace" "prefix w s"
        by (auto simp: find_Some_iff)
      then have pos: "0 < length w" and le: "length w \<le> length s"
        using whitespace_nonempty by (auto simp: prefix_length_le)
      have k: "ws_prefix_len s = length w"
        using Some by (simp add: ws_prefix_len_def)
      have "trim_start s = trim_start (drop (length w) s)"
        using k pos le by (subst trim_start.simps) simp
      also have "\<dots> = strip_front whitespace (drop (length w) s)"
        using "1.IH" [of "length w"] k pos le by simp
      finally show ?thesis
        using Some by (simp add: strip_front_step [OF whitespace_nonempty])
    qed
  qed
  have rear: "trim_end s = rev (strip_front (map rev whitespace) (rev s))" for s
  proof (induction s rule: trim_end.induct)
    case (1 s)
    show ?case
    proof (cases "find (\<lambda>w. suffix w s) whitespace")
      case None
      then have "ws_suffix_len s = 0"
        by (simp add: ws_suffix_len_def)
      then have "trim_end s = s"
        by (subst trim_end.simps) simp
      with None show ?thesis
        by (simp add: strip_front_step [OF rev_whitespace_nonempty] find_map_rev)
    next
      case (Some w)
      then have w: "w \<in> set whitespace" "suffix w s"
        by (auto simp: find_Some_iff)
      then have pos: "0 < length w" and le: "length w \<le> length s"
        using whitespace_nonempty by (auto simp: suffix_length_le)
      have k: "ws_suffix_len s = length w"
        using Some by (simp add: ws_suffix_len_def)
      have "trim_end s = trim_end (take (length s - length w) s)"
        using k pos le by (subst trim_end.simps) simp
      also have "\<dots> =
          rev (strip_front (map rev whitespace) (rev (take (length s - length w) s)))"
        using "1.IH" [of "length w"] k pos le by simp
      also have "rev (take (length s - length w) s) = drop (length w) (rev s)"
        by (simp add: drop_rev)
      finally show ?thesis
        using Some by (simp add: strip_front_step [OF rev_whitespace_nonempty] find_map_rev)
    qed
  qed
  have cleanedContent_refines: "cleanedContent s = trimmed (without_fences s)" for s
    by (simp add: cleanedContent_def trim_def trimmed_def strip front rear)
  have g: "isl (gemini_stage parse (Content (Some raw))) = fails_once_trimmed parse raw"
  proof (cases "raw = []")
    case True
    with assms cleanedContent_refines [of "[]"] show ?thesis
      by (simp add: gemini_stage_def falsy_def fails_once_trimmed_def cleanedContent_Nil)
  next
    case False
    have "isl (case questions_of v of Inl _ \<Rightarrow> Inl FailedToParse | Inr qs \<Rightarrow> Inr qs) =
        (\<not> has_questions v)" for v
      using questions_of_has_questions [of v] by (cases "questions_of v") simp_all
    with False show ?thesis
      by (simp add: gemini_stage_def falsy_def fails_once_trimmed_def cleanedContent_refines
          split: option.splits)
  qed
  have o: "isl (openai_stage parse (Content (Some raw))) =
      (case parse raw of None \<Rightarrow> True | Some v \<Rightarrow> \<not> has_questions v)"
  proof (cases "raw = []")
    case True
    with assms show ?thesis
      by (simp add: openai_stage_def falsy_def)
  next
    case False
    then show ?thesis
      by (simp add: openai_stage_def falsy_def questions_of_has_questions split: option.splits)
  qed
  show ?thesis
    unfolding g [symmetric] o [symmetric]
    by (simp add: POST_route_failed_stage POST_mock_failed_stage POST_two_stage_failed_second
        POST_two_stage_failed_first)
qed

text \<open>
  The theorem at the fenced reply, which the Gemini stage reads once it is stripped and
  trimmed, and at the reply that breaks off.
\<close>

theorem stage_failure_rule_witness:
  "jsonParse [] = None \<and>
   trimmed (without_fences fenced_reply) = bare_reply \<and>
   cleanedContent fenced_reply = bare_reply \<and>
   \<not> isl (gemini_stage jsonParse (Content (Some fenced_reply))) \<and>
   isl (gemini_stage jsonParse (Content (Some broken_reply))) \<and>
   isl (openai_stage jsonParse (Content (Some broken_reply))) \<and>
   POST_route jsonParse (Content (Some broken_reply)) (Body (example_body (Some 3))) =
     POST_route jsonParse Throws (Body (example_body (Some 3))) \<and>
   POST_mock jsonParse (Content (Some broken_reply)) (Body (example_body (Some 3))) =
     POST_mock jsonParse Throws (Body (example_body (Some 3))) \<and>
   POST_two_stage jsonParse Throws (Content (Some broken_reply))
       (Body (example_body (Some 3))) =
     POST_two_stage jsonParse Throws Throws (Body (example_body (Some 3))) \<and>
   POST_two_stage jsonParse (Content (Some broken_reply)) Throws
       (Body (example_body (Some 3))) =
     POST_two_stage jsonParse Throws Throws (Body (example_body (Some 3)))"
proof -
  have cleaned: "cleanedContent fenced_reply = bare_reply"
    by code_simp
  have "trimmed (without_fences fenced_reply) = cleanedContent fenced_reply"
    unfolding cleaned by (rule fenced_reply_trimmed(1))
  with stage_failure_rule
      [where parse = jsonParse and raw = broken_reply and openai = Throws
         and gemini = Throws and req = "Body (example_body (Some 3))"]
    stage_failure_rule [where parse = jsonParse and raw = fenced_reply]
    broken_reply_fails fenced_reply_trimmed jsonParse_Nil cleaned
  show ?thesis
    by simp
qed

text \<open>
  C5 as it is stated fails twice. At the first stage of the two-stage variant, the
  fenced reply, stripped and parsed, has a non-empty \<^verbatim>\<open>questions\<close> array, so by the
  claim the stage has not failed; the OpenAI stage parses it with its fences, fails,
  and the response comes from the fixed list. At a Gemini stage, the reply after a
  byte-order mark, stripped and parsed, makes parsing throw, so by the claim the stage
  has failed; the stage trims the mark away, parses, and returns the question.
\<close>

theorem stage_rule_as_stated_fails:
  "\<not> fails_as_stated jsonParse fenced_reply \<and>
   openai_stage jsonParse (Content (Some fenced_reply)) = Inl SyntaxError \<and>
   source
     (POST_two_stage jsonParse (Content (Some fenced_reply)) Throws
        (Body (example_body (Some 3)))) = Some ''fallback'' \<and>
   fails_as_stated jsonParse marked_reply \<and>
   gemini_stage jsonParse (Content (Some marked_reply)) = Inr [fenced_question] \<and>
   questions
     (POST_route jsonParse (Content (Some marked_reply)) (Body (example_body (Some 3)))) =
     Some [fenced_question]"
  by code_simp

subsection \<open>The two-stage variant after its first stage\<close>




subsection \<open>Sessions of the quiz\<close>

lemma session_inv_loaded: "qs \<noteq> [] \<Longrightarrow> session_inv (loaded qs)"
  by (simp add: session_inv_def loaded_def counted_def)

lemma session_inv_handleNextQuestion:
  assumes "session_inv s" and "\<not> quizFinished s" and "selectedAnswerIndex s \<noteq> - 1"
  shows "session_inv (handleNextQuestion s)"
  using assms
  by (auto simp: session_inv_def handleNextQuestion_def counted_def Let_def TIME_LIMIT_def)

lemma session_inv_handleSelectAnswer:
  assumes "session_inv s" and "\<not> quizFinished s" and "selectedAnswerIndex s = - 1"
  shows "session_inv (handleSelectAnswer i s)"
  using assms
  by (auto simp: session_inv_def handleSelectAnswer_def counted_def Let_def TIME_LIMIT_def)

lemma session_inv_tick:
  assumes "session_inv s" and "\<not> quizFinished s"
  shows "session_inv (timeLimitEffect (tick s))"
  using assms
  by (auto simp: session_inv_def timeLimitEffect_def tick_def idle_def handleNextQuestion_def
      counted_def Let_def TIME_LIMIT_def)

lemma session_inv_step:
  assumes "session_inv s" and "enabled e s"
  shows "session_inv (step e s)"
proof (cases e)
  case Tick
  with assms have "\<not> quizFinished s"
    by (auto simp: enabled_def session_inv_def)
  with assms Tick show ?thesis
    by (simp add: step_def session_inv_tick)
next
  case (Select i)
  with assms show ?thesis
    by (simp add: step_def enabled_def idle_def option_click_enabled_def
        session_inv_handleSelectAnswer)
next
  case Next
  with assms show ?thesis
    by (simp add: step_def enabled_def idle_def session_inv_handleNextQuestion)
qed

lemma quizQuestions_step: "quizQuestions (step e s) = quizQuestions s"
  by (cases e)
    (simp_all add: step_def timeLimitEffect_def tick_def handleNextQuestion_def
      handleSelectAnswer_def Let_def)

lemma run_preserves:
  "run es s = Some s' \<Longrightarrow> session_inv s \<Longrightarrow>
   session_inv s' \<and> quizQuestions s' = quizQuestions s"
proof (induction es arbitrary: s)
  case Nil
  then show ?case by simp
next
  case (Cons e es)
  from Cons.prems have en: "enabled e s" and r: "run es (step e s) = Some s'"
    by (simp_all split: if_splits)
  from Cons.IH [OF r session_inv_step [OF Cons.prems(2) en]] show ?case
    by (simp add: quizQuestions_step)
qed

lemma sample_session_runs: "run sample_session (loaded sample_questions) \<noteq> None"
  by code_simp

lemma sample_session_finishes:
  "quizFinished (the (run sample_session (loaded sample_questions)))"
  by code_simp

lemma sample_questions_length: "length sample_questions = 2"
  by code_simp

lemma tick_passes_limit:
  "timePassed s = TIME_LIMIT \<Longrightarrow>
   TIME_LIMIT < timePassed (tick s) \<and> step Tick s = timeLimitEffect (tick s)"
  by (simp add: tick_def step_def)

lemma run_to_limit: "run (replicate 60 Tick) (loaded sample_questions) = Some at_limit"
  by code_simp

lemma at_limit_facts:
  "\<not> idle (tick at_limit)" "selectedAnswerIndex (tick at_limit) = - 1"
  "timePassed (tick at_limit) = 61" "activeQuestion (tick at_limit) = 0"
  "length (quizQuestions (tick at_limit)) = 2"
  "tally (tick at_limit) = \<lparr>correctAnswers = 0, wrongAnswers = 0, secondsUsed = 0\<rparr>"
  "timePassed at_limit = 60" "enabled Tick at_limit" "activeQuestion at_limit = 0"
  by (simp_all add: at_limit_def tick_def idle_def loaded_def sample_questions_def science_def
      TIME_LIMIT_def enabled_def)

subsection \<open>The tally of a finished quiz\<close>

text \<open>
  C7. A session starts when the questions are fetched and runs through ticks of the
  timer, clicks on an option (one for a question, as the spec has it) and clicks on the
  button. When it has finished a quiz of n questions, the correct and the wrong answers
  add up to n, and the seconds used are at most n times the time limit of 60.
\<close>

theorem quiz_final_tally:
  assumes "qs \<noteq> []" and "run es (loaded qs) = Some s"
  shows "secondsUsed (tally s) \<le> length qs * TIME_LIMIT \<and>
         TIME_LIMIT = 60 \<and>
         (quizFinished s \<longrightarrow>
            correctAnswers (tally s) + wrongAnswers (tally s) = length qs)"
proof -
  from run_preserves [OF assms(2) session_inv_loaded [OF assms(1)]]
  have inv: "session_inv s" and qs: "quizQuestions s = qs"
    by (simp_all add: loaded_def)
  then have "counted s \<le> length qs"
    by (auto simp: session_inv_def counted_def)
  then have "counted s * TIME_LIMIT \<le> length qs * TIME_LIMIT"
    by (rule mult_le_mono1)
  with inv qs show ?thesis
    by (auto simp: session_inv_def counted_def TIME_LIMIT_def)
qed

text \<open>The theorem at the session on two questions, which finishes.\<close>

theorem quiz_final_tally_witness:
  "\<exists>s. run sample_session (loaded sample_questions) = Some s \<and> quizFinished s \<and>
       correctAnswers (tally s) + wrongAnswers (tally s) = 2 \<and>
       secondsUsed (tally s) \<le> 2 * TIME_LIMIT"
proof -
  from sample_session_runs obtain s
    where r: "run sample_session (loaded sample_questions) = Some s"
    by auto
  with sample_session_finishes have f: "quizFinished s"
    by simp
  have ne: "sample_questions \<noteq> []"
    using sample_questions_length by auto
  from quiz_final_tally [OF ne r] r f show ?thesis
    by (simp add: sample_questions_length)
qed

subsection \<open>The time limit\<close>

text \<open>
  C8. When the effect on the counter finds it beyond the time limit, the quiz running
  and no option selected, the question is counted as wrong, the time limit is added to
  the seconds used, the counter is reset to 0, and the quiz moves on by exactly one
  question, or is finished when the question was the last.
\<close>

theorem time_limit_auto_advance:
  assumes "\<not> idle s" and "selectedAnswerIndex s = - 1" and "TIME_LIMIT < timePassed s"
  shows "wrongAnswers (tally (timeLimitEffect s)) = wrongAnswers (tally s) + 1 \<and>
         secondsUsed (tally (timeLimitEffect s)) = secondsUsed (tally s) + TIME_LIMIT \<and>
         correctAnswers (tally (timeLimitEffect s)) = correctAnswers (tally s) \<and>
         timePassed (timeLimitEffect s) = 0 \<and>
         selectedAnswerIndex (timeLimitEffect s) = - 1 \<and>
         (if activeQuestion s + 1 \<ge> length (quizQuestions s)
          then quizFinished (timeLimitEffect s) \<and>
               activeQuestion (timeLimitEffect s) = activeQuestion s
          else \<not> quizFinished (timeLimitEffect s) \<and>
               activeQuestion (timeLimitEffect s) = activeQuestion s + 1 \<and>
               timerOn (timeLimitEffect s))"
  using assms by (simp add: timeLimitEffect_def handleNextQuestion_def Let_def idle_def)

text \<open>
  The theorem at the state the sixty-first tick renders, on the first of two questions.
\<close>

theorem time_limit_auto_advance_witness:
  "run (replicate 60 Tick) (loaded sample_questions) = Some at_limit \<and>
   step Tick at_limit = timeLimitEffect (tick at_limit) \<and>
   TIME_LIMIT < timePassed (tick at_limit) \<and>
   wrongAnswers (tally (timeLimitEffect (tick at_limit))) = 1 \<and>
   secondsUsed (tally (timeLimitEffect (tick at_limit))) = TIME_LIMIT \<and>
   correctAnswers (tally (timeLimitEffect (tick at_limit))) = 0 \<and>
   timePassed (timeLimitEffect (tick at_limit)) = 0 \<and>
   activeQuestion (timeLimitEffect (tick at_limit)) = 1 \<and>
   \<not> quizFinished (timeLimitEffect (tick at_limit))"
proof -
  have lim: "TIME_LIMIT < timePassed (tick at_limit)"
    by (simp add: at_limit_facts TIME_LIMIT_def)
  from time_limit_auto_advance [OF at_limit_facts(1,2) lim] lim run_to_limit
  show ?thesis
    by (simp add: at_limit_facts step_def loaded_def)
qed

text \<open>
  C9, as the code has it. The counter is 0 when the questions are fetched and whenever
  an event moves the quiz to another question; between events it is at most the time
  limit; a tick adds 1 to it, so the state a tick renders holds at most the time limit
  plus 1, the value the effect on the counter waits for.
\<close>

theorem timer_within_limit_plus_one:
  assumes "qs \<noteq> []" and "run es (loaded qs) = Some s"
  shows "timePassed (loaded qs) = 0 \<and>
         timePassed s \<le> TIME_LIMIT \<and>
         timePassed (tick s) = timePassed s + 1 \<and>
         timePassed (tick s) \<le> TIME_LIMIT + 1 \<and>
         (\<forall>e. enabled e s \<and> activeQuestion (step e s) \<noteq> activeQuestion s \<longrightarrow>
              timePassed (step e s) = 0)"
proof -
  from run_preserves [OF assms(2) session_inv_loaded [OF assms(1)]]
  have le: "timePassed s \<le> TIME_LIMIT"
    by (simp add: session_inv_def)
  have new: "timePassed (step e s) = 0"
    if "activeQuestion (step e s) \<noteq> activeQuestion s" for e
    using that
    by (cases e)
      (auto simp: step_def timeLimitEffect_def tick_def handleNextQuestion_def
        handleSelectAnswer_def Let_def split: if_splits)
  from le new show ?thesis
    by (simp add: loaded_def tick_def)
qed

text \<open>The theorem after sixty ticks on the first of two questions.\<close>

theorem timer_within_limit_plus_one_witness:
  "sample_questions \<noteq> [] \<and>
   run (replicate 60 Tick) (loaded sample_questions) = Some at_limit \<and>
   timePassed at_limit = 60 \<and>
   timePassed (tick at_limit) = 61 \<and>
   enabled Tick at_limit \<and>
   activeQuestion (step Tick at_limit) = 1 \<and>
   timePassed (step Tick at_limit) = 0"
proof -
  have ne: "sample_questions \<noteq> []"
    using sample_questions_length by auto
  have a: "activeQuestion (step Tick at_limit) = 1"
    by code_simp
  from timer_within_limit_plus_one [OF ne run_to_limit] ne run_to_limit a
  show ?thesis
    by (simp add: at_limit_facts)
qed

text \<open>
  C9 as it is stated fails: after sixty ticks the counter is at the time limit, and the
  next tick sets it to 61, which the component renders before the effect resets it.
\<close>

theorem timer_passes_limit:
  "run (replicate 60 Tick) (loaded sample_questions) = Some at_limit \<and>
   timePassed (tick at_limit) = 61 \<and>
   TIME_LIMIT < timePassed (tick at_limit)"
  using run_to_limit by (simp add: at_limit_facts TIME_LIMIT_def)

end
